theory Spec2Isabelle
  imports Complex_Main "HOL-Library.Word"
begin

section \<open>The chat front end (src/frontend/app.js)\<close>

subsection \<open>JavaScript strings and parsed JSON values\<close>

text \<open>
  A JavaScript string is a sequence of 16-bit code units. \<open>lit\<close> writes an ASCII
  literal of the source as such a sequence.
\<close>

type_synonym jsstring = "16 word list"

definition lit :: "string \<Rightarrow> jsstring" where
  "lit cs = map (\<lambda>c. of_nat (of_char c)) cs"

text \<open>
  \<open>String.prototype.trim\<close> removes white space and line terminators from both ends:
  TAB, LF, VT, FF, CR, SP, NBSP, U+1680, U+2000..U+200A, U+2028, U+2029, U+202F, U+205F,
  U+3000 and U+FEFF. All of them are single code units.
\<close>

definition is_ws :: "16 word \<Rightarrow> bool" where
  "is_ws c \<longleftrightarrow>
     c \<in> set [0x9, 0xA, 0xB, 0xC, 0xD, 0x20, 0xA0, 0x1680, 0x2028, 0x2029, 0x202F, 0x205F,
              0x3000, 0xFEFF]
     \<or> (0x2000 \<le> c \<and> c \<le> 0x200A)"

definition trim :: "jsstring \<Rightarrow> jsstring" where
  "trim s = rev (dropWhile is_ws (rev (dropWhile is_ws s)))"

text \<open>
  The value \<open>response.json()\<close> resolves to. An object is the list of its own properties
  (each key once, as \<open>JSON.parse\<close> leaves it). A JavaScript value that may also be
  \<open>undefined\<close> is a \<open>json option\<close>, with \<open>None\<close> for \<open>undefined\<close>.
\<close>

datatype json =
    JNull
  | JBool bool
  | JNum rat
  | JStr jsstring
  | JArr "json list"
  | JObj "(jsstring \<times> json) list"

text \<open>
  What the source leaves to the JavaScript engine is a parameter of the model: the text of
  the \<open>TypeError\<close> raised by reading a property of \<open>null\<close> or \<open>undefined\<close>, the
  text of the \<open>TypeError\<close> raised when an object has no primitive value, the decimal
  text of a number, and the number a string converts to (\<open>None\<close> for \<open>NaN\<close>).
\<close>

record engine =
  type_error_message :: "json option \<Rightarrow> jsstring \<Rightarrow> jsstring"
  convert_error_message :: jsstring
  number_to_string :: "rat \<Rightarrow> jsstring"
  string_to_number :: "jsstring \<Rightarrow> rat option"

text \<open>Truthiness, as \<open>||\<close>, \<open>&&\<close>, \<open>!\<close> and \<open>if\<close> test it.\<close>

fun truthy :: "json option \<Rightarrow> bool" where
  "truthy None = False"
| "truthy (Some JNull) = False"
| "truthy (Some (JBool b)) = b"
| "truthy (Some (JNum n)) = (n \<noteq> 0)"
| "truthy (Some (JStr s)) = (s \<noteq> [])"
| "truthy (Some (JArr xs)) = True"
| "truthy (Some (JObj kvs)) = True"

text \<open>\<open>a || b\<close> where \<open>b\<close> is a defined value.\<close>

definition or_else :: "json option \<Rightarrow> json \<Rightarrow> json" where
  "or_else a b = (case a of None \<Rightarrow> b | Some v \<Rightarrow> if truthy (Some v) then v else b)"

text \<open>
  Reading the property \<open>p\<close> of a value that is neither \<open>null\<close> nor \<open>undefined\<close>. The
  program reads only \<open>detail\<close>, \<open>response\<close>, \<open>updated_history\<close>,
  \<open>conversational_response\<close>, \<open>data\<close> and \<open>length\<close>: of these, arrays and strings have
  \<open>length\<close>, and numbers and booleans have none.
\<close>

fun member :: "json \<Rightarrow> jsstring \<Rightarrow> json option" where
  "member (JObj kvs) p = map_of kvs p"
| "member (JArr xs) p = (if p = lit ''length'' then Some (JNum (of_nat (length xs))) else None)"
| "member (JStr s) p = (if p = lit ''length'' then Some (JNum (of_nat (length s))) else None)"
| "member v p = None"

text \<open>\<open>v.p\<close>: a \<open>TypeError\<close> (\<open>Inl\<close> its message) when \<open>v\<close> is \<open>null\<close> or \<open>undefined\<close>.\<close>

fun get_prop :: "engine \<Rightarrow> json option \<Rightarrow> jsstring \<Rightarrow> jsstring + json option" where
  "get_prop eng None p = Inl (type_error_message eng None p)"
| "get_prop eng (Some JNull) p = Inl (type_error_message eng (Some JNull) p)"
| "get_prop eng (Some v) p = Inr (member v p)"

fun join :: "jsstring \<Rightarrow> jsstring list \<Rightarrow> jsstring" where
  "join sep [] = []"
| "join sep [x] = x"
| "join sep (x # y # ys) = x @ sep @ join sep (y # ys)"

text \<open>
  \<open>ToString\<close>, which \<open>new Error(x)\<close> and the \<open>textContent\<close> setter apply to their
  argument; \<open>Inl\<close> is the message of the \<open>TypeError\<close> it throws. An array joins its
  elements with commas, from left to right, \<open>null\<close> elements as the empty string. A
  parsed object has the inherited \<open>toString\<close>, which gives \<open>[object Object]\<close>, unless it
  has a key \<open>toString\<close> of its own: the value of that key is never a function, the
  inherited \<open>valueOf\<close> returns the object itself, and the conversion throws.
\<close>

fun to_string :: "engine \<Rightarrow> json \<Rightarrow> jsstring + jsstring"
  and to_strings :: "engine \<Rightarrow> json list \<Rightarrow> jsstring + jsstring list" where
  "to_string eng JNull = Inr (lit ''null'')"
| "to_string eng (JBool b) = Inr (if b then lit ''true'' else lit ''false'')"
| "to_string eng (JNum n) = Inr (number_to_string eng n)"
| "to_string eng (JStr s) = Inr s"
| "to_string eng (JArr xs) =
     (case to_strings eng xs of Inl m \<Rightarrow> Inl m | Inr ts \<Rightarrow> Inr (join (lit '','') ts))"
| "to_string eng (JObj kvs) =
     (if lit ''toString'' \<in> set (map fst kvs) then Inl (convert_error_message eng)
      else Inr (lit ''[object Object]''))"
| "to_strings eng [] = Inr []"
| "to_strings eng (x # xs) =
     (case (if x = JNull then Inr [] else to_string eng x) of
        Inl m \<Rightarrow> Inl m
      | Inr t \<Rightarrow> (case to_strings eng xs of Inl m \<Rightarrow> Inl m | Inr ts \<Rightarrow> Inr (t # ts)))"

text \<open>
  \<open>x > 0\<close>, with the conversion of \<open>x\<close> to a number that \<open>>\<close> performs: an array or
  an object is first converted to a string (which may throw, as above), and a string to
  the number it denotes. \<open>[object Object]\<close> denotes no number.
\<close>

fun gt_zero :: "engine \<Rightarrow> json option \<Rightarrow> jsstring + bool" where
  "gt_zero eng None = Inr False"
| "gt_zero eng (Some JNull) = Inr False"
| "gt_zero eng (Some (JBool b)) = Inr b"
| "gt_zero eng (Some (JNum n)) = Inr (0 < n)"
| "gt_zero eng (Some (JStr s)) =
     Inr (case string_to_number eng s of None \<Rightarrow> False | Some n \<Rightarrow> 0 < n)"
| "gt_zero eng (Some (JArr xs)) =
     (case to_string eng (JArr xs) of
        Inl m \<Rightarrow> Inl m
      | Inr t \<Rightarrow> Inr (case string_to_number eng t of None \<Rightarrow> False | Some n \<Rightarrow> 0 < n))"
| "gt_zero eng (Some (JObj kvs)) =
     (case to_string eng (JObj kvs) of Inl m \<Rightarrow> Inl m | Inr t \<Rightarrow> Inr False)"

subsection \<open>The page state\<close>

text \<open>
  The children of \<open>chatContainer\<close>. A user message is a div whose \<open>textContent\<close> is the
  string. An agent message holds an optional paragraph (its \<open>textContent\<close>) and an
  optional data card, kept as the value that \<open>JSON.stringify(response.data, null, 2)\<close>
  prints. An error message is a div whose \<open>innerHTML\<close> is the string.
\<close>

datatype element =
    UserMessage jsstring
  | AgentMessage "jsstring option" "json option"
  | ErrorMessage jsstring

text \<open>The JSON body of one POST to \<open>API_URL\<close>.\<close>

record request =
  query :: jsstring
  chat_history :: json

text \<open>
  \<open>requests\<close> logs every \<open>fetch\<close> the page has issued, in order; \<open>in_flight\<close> counts
  those that have not settled; \<open>console\<close> logs the messages of the errors passed to
  \<open>console.error\<close>. \<open>scrollToBottom\<close> only moves the viewport and is left out.
  The page (not among the sources) is taken to start with an empty input field, a hidden
  loader and an enabled button; \<open>chatHistory\<close> starts as the empty array.
\<close>

record state =
  input_value :: jsstring
  input_focused :: bool
  loader_shown :: bool
  button_disabled :: bool
  chatHistory :: json
  chat :: "element list"
  requests :: "request list"
  in_flight :: nat
  console :: "jsstring list"

definition init :: state where
  "init = \<lparr>input_value = [], input_focused = False, loader_shown = False,
           button_disabled = False, chatHistory = JArr [], chat = [], requests = [],
           in_flight = 0, console = []\<rparr>"

subsection \<open>The display functions\<close>

definition displayUserMessage :: "jsstring \<Rightarrow> state \<Rightarrow> state" where
  "displayUserMessage message s = s\<lparr>chat := chat s @ [UserMessage message]\<rparr>"

text \<open>
  \<open>displayAgentResponse\<close>: the paragraph when \<open>conversational_response\<close> is truthy, the
  card when \<open>data\<close> is truthy and its \<open>length\<close> exceeds 0. The message div joins the
  chat container last, so a throw before that leaves the chat as it was.
\<close>

definition displayAgentResponse :: "engine \<Rightarrow> json option \<Rightarrow> state \<Rightarrow> jsstring + state" where
  "displayAgentResponse eng response s =
     (case get_prop eng response (lit ''conversational_response'') of
        Inl m \<Rightarrow> Inl m
      | Inr c \<Rightarrow>
          (case (case c of
                   None \<Rightarrow> Inr None
                 | Some v \<Rightarrow>
                     if truthy (Some v)
                     then (case to_string eng v of Inl m \<Rightarrow> Inl m | Inr t \<Rightarrow> Inr (Some t))
                     else Inr None) of
             Inl m \<Rightarrow> Inl m
           | Inr textP \<Rightarrow>
               (case get_prop eng response (lit ''data'') of
                  Inl m \<Rightarrow> Inl m
                | Inr d \<Rightarrow>
                    if \<not> truthy d then Inr (s\<lparr>chat := chat s @ [AgentMessage textP None]\<rparr>)
                    else (case get_prop eng d (lit ''length'') of
                            Inl m \<Rightarrow> Inl m
                          | Inr len \<Rightarrow>
                              (case gt_zero eng len of
                                 Inl m \<Rightarrow> Inl m
                               | Inr positive \<Rightarrow>
                                   Inr (s\<lparr>chat := chat s @
                                     [AgentMessage textP (if positive then d else None)]\<rparr>))))))"

definition error_html :: "jsstring \<Rightarrow> jsstring" where
  "error_html message =
     lit ''<p class='' @ [0x22] @ lit ''error-message'' @ [0x22] @ lit ''>Error: ''
       @ message @ lit ''</p>''"

definition displayError :: "jsstring \<Rightarrow> state \<Rightarrow> state" where
  "displayError message s = s\<lparr>chat := chat s @ [ErrorMessage (error_html message)]\<rparr>"



subsection \<open>handleQuery\<close>

text \<open>
  \<open>handleQuery\<close> is asynchronous. Its first part runs at once, up to the call of
  \<open>fetch\<close>, whose body is serialised at that moment. The rest runs when the fetch has
  settled and \<open>response.json()\<close> has resolved or rejected; nothing of the page is read or
  written between these two awaits, so the rest is one step.
\<close>

definition handleQuery :: "state \<Rightarrow> state" where
  "handleQuery s =
     (let query = trim (input_value s) in
      if query = [] then s
      else (displayUserMessage query s)
             \<lparr>input_value := [], loader_shown := True, button_disabled := True,
              requests := requests s @ [\<lparr>query = query, chat_history = chatHistory s\<rparr>],
              in_flight := in_flight s + 1\<rparr>)"

text \<open>
  How a fetch settles: it rejects (a network failure, with the error's message), or it
  resolves to a response with its \<open>ok\<close> flag, whose body parses as JSON or makes
  \<open>response.json()\<close> reject (with the error's message).
\<close>

datatype body = NotJson jsstring | Json json

datatype outcome = Rejected jsstring | Response bool body

text \<open>
  The \<open>try\<close> block after the fetch: the message of the error thrown, if any, and the
  state at that point (an assignment made before a throw stays made). The error thrown
  for a non-2xx response is the \<open>Error\<close> made from the detail, or the \<open>TypeError\<close> of
  converting the detail to a string.
\<close>

definition try_block :: "engine \<Rightarrow> outcome \<Rightarrow> state \<Rightarrow> jsstring option \<times> state" where
  "try_block eng out s =
     (case out of
        Rejected m \<Rightarrow> (Some m, s)
      | Response ok b \<Rightarrow>
          if \<not> ok then
            (case b of
               NotJson m \<Rightarrow> (Some m, s)
             | Json errorData \<Rightarrow>
                 (case get_prop eng (Some errorData) (lit ''detail'') of
                    Inl m \<Rightarrow> (Some m, s)
                  | Inr d \<Rightarrow>
                      (case to_string eng (or_else d (JStr (lit ''An API error occurred.''))) of
                         Inl m \<Rightarrow> (Some m, s)
                       | Inr message \<Rightarrow> (Some message, s))))
          else
            (case b of
               NotJson m \<Rightarrow> (Some m, s)
             | Json data \<Rightarrow>
                 (case get_prop eng (Some data) (lit ''response'') of
                    Inl m \<Rightarrow> (Some m, s)
                  | Inr r \<Rightarrow>
                      (case get_prop eng r (lit ''updated_history'') of
                         Inl m \<Rightarrow> (Some m, s)
                       | Inr h \<Rightarrow>
                           (let s1 = s\<lparr>chatHistory := or_else h (JArr [])\<rparr>
                            in case displayAgentResponse eng r s1 of
                                 Inl m \<Rightarrow> (Some m, s1)
                               | Inr s2 \<Rightarrow> (None, s2))))))"

text \<open>The continuation of \<open>handleQuery\<close>: \<open>try\<close>, \<open>catch\<close>, \<open>finally\<close>.\<close>

definition handleQuery_settle :: "engine \<Rightarrow> outcome \<Rightarrow> state \<Rightarrow> state" where
  "handleQuery_settle eng out s =
     (let s1 = (case try_block eng out s of
                  (Some m, s') \<Rightarrow> displayError m (s'\<lparr>console := console s' @ [m]\<rparr>)
                | (None, s') \<Rightarrow> s')
      in s1\<lparr>loader_shown := False, button_disabled := False, input_focused := True,
            in_flight := in_flight s - 1\<rparr>)"

subsection \<open>Events\<close>

text \<open>
  What can happen to the page: the user edits the input field, clicks the button (a
  disabled button dispatches no click), releases a key in the input field, or a pending
  fetch settles.
\<close>

datatype event = Edit jsstring | Click | Keyup jsstring | Settle outcome

fun step :: "engine \<Rightarrow> event \<Rightarrow> state \<Rightarrow> state" where
  "step eng (Edit v) s = s\<lparr>input_value := v\<rparr>"
| "step eng Click s = (if button_disabled s then s else handleQuery s)"
| "step eng (Keyup key) s = (if key = lit ''Enter'' then handleQuery s else s)"
| "step eng (Settle out) s = (if in_flight s = 0 then s else handleQuery_settle eng out s)"

fun run :: "engine \<Rightarrow> event list \<Rightarrow> state \<Rightarrow> state" where
  "run eng [] s = s"
| "run eng (e # es) s = run eng es (step eng e s)"

text \<open>
  The outcomes that take \<open>handleQuery\<close> to its assignment of \<open>chatHistory\<close>: a 2xx
  response whose JSON body has a \<open>response\<close> member that is not \<open>null\<close>.
\<close>

definition reads_history :: "outcome \<Rightarrow> bool" where
  "reads_history out =
     (case out of
        Rejected m \<Rightarrow> False
      | Response ok b \<Rightarrow>
          ok \<and> (case b of
                  NotJson m \<Rightarrow> False
                | Json data \<Rightarrow>
                    (case member data (lit ''response'') of
                       None \<Rightarrow> False
                     | Some r \<Rightarrow> r \<noteq> JNull)))"

text \<open>A 2xx response settles; a list of events without one.\<close>

fun is_success :: "event \<Rightarrow> bool" where
  "is_success (Settle (Response ok b)) = ok"
| "is_success e = False"

definition no_success :: "event list \<Rightarrow> bool" where
  "no_success es = list_all (\<lambda>e. \<not> is_success e) es"

text \<open>
  An engine to run the model on concrete inputs. The \<open>TypeError\<close> texts are V8's; the
  two number conversions are reached by none of the runs below and are fixed arbitrarily.
  Every general result holds for all engines.
\<close>

definition sample_engine :: engine where
  "sample_engine =
     \<lparr>type_error_message = (\<lambda>v p. lit ''Cannot read properties of '' @
          (case v of None \<Rightarrow> lit ''undefined'' | Some _ \<Rightarrow> lit ''null'') @
          lit '' (reading '' @ [0x27] @ p @ [0x27] @ lit '')''),
      convert_error_message = lit ''Cannot convert object to primitive value'',
      number_to_string = (\<lambda>n. lit ''0''),
      string_to_number = (\<lambda>s. None)\<rparr>"

text \<open>
  The button's guard as a property of the state: nothing in flight and the button enabled,
  or one request in flight and the button disabled. \<open>is_enter\<close> picks the key
  releases that call \<open>handleQuery\<close>.
\<close>

definition serial :: "state \<Rightarrow> bool" where
  "serial s \<longleftrightarrow>
     (in_flight s = 0 \<and> \<not> button_disabled s) \<or> (in_flight s = 1 \<and> button_disabled s)"

fun is_enter :: "event \<Rightarrow> bool" where
  "is_enter (Keyup key) = (key = lit ''Enter'')"
| "is_enter e = False"

section \<open>The database (src/infra/init.sql and the V3.0 script, src/unnamed/part_000)\<close>

subsection \<open>Column types and rows\<close>

text \<open>
  \<open>TEXT\<close> is a string, \<open>INTEGER\<close> a signed 32-bit word, \<open>TIMESTAMPTZ\<close> the
  microseconds since the epoch that PostgreSQL stores, \<open>JSONB\<close> a JSON value. No
  constraint reads a \<open>DOUBLE PRECISION\<close> value, which is kept as a real. Every column
  of a row offered to \<open>INSERT\<close> may be \<open>NULL\<close> (\<open>None\<close>); \<open>NOT NULL\<close> is a check
  of the insert. The columns \<open>x\<close>, \<open>y\<close>, \<open>z\<close> are named \<open>pos_x\<close>, \<open>pos_y\<close>,
  \<open>pos_z\<close> here.
\<close>

type_synonym timestamptz = int

record tracking =
  match_id :: "string option"
  frame :: "32 word option"
  timestamp_iso :: "timestamptz option"
  team_id :: "string option"
  player_id :: "string option"
  pos_x :: "real option"
  pos_y :: "real option"
  pos_z :: "real option"
  speed :: "real option"
  orientation :: "real option"

record events =
  event_id :: "string option"
  match_id :: "string option"
  event_type :: "string option"
  start_time :: "timestamptz option"
  end_time :: "timestamptz option"
  start_frame :: "32 word option"
  end_frame :: "32 word option"
  team_id :: "string option"
  players_involved :: "json option"
  metadata_json :: "json option"

record match_metadata =
  match_id :: "string option"
  competition_name :: "string option"
  home_team_name :: "string option"
  away_team_name :: "string option"
  pitch_length_m :: "real option"
  pitch_width_m :: "real option"
  additional_info :: "json option"

record tracking_data =
  match_id :: "string option"
  period :: "32 word option"
  frame :: "32 word option"
  timestamp_iso :: "timestamptz option"
  tracked_objects :: "json option"
  frame_metadata :: "json option"

datatype sql_error =
    NotNullViolation
  | UniqueViolation
  | ForeignKeyViolation
  | DuplicateTable
  | DuplicateObject
  | UndefinedObject

subsection \<open>INSERT under the declared constraints\<close>

text \<open>
  \<open>tracking\<close> (init.sql): three \<open>NOT NULL\<close> columns, no key.
\<close>

definition insert_tracking :: "tracking \<Rightarrow> tracking list \<Rightarrow> sql_error + tracking list" where
  "insert_tracking r rows =
     (if tracking.match_id r = None \<or> tracking.frame r = None \<or> tracking.timestamp_iso r = None
      then Inl NotNullViolation
      else Inr (rows @ [r]))"

text \<open>
  \<open>events\<close> (init.sql): \<open>event_id\<close> is the primary key, six further columns are
  \<open>NOT NULL\<close>; no \<open>CHECK\<close> and no \<open>REFERENCES\<close>.
\<close>

definition insert_events :: "events \<Rightarrow> events list \<Rightarrow> sql_error + events list" where
  "insert_events r rows =
     (if event_id r = None \<or> events.match_id r = None \<or> event_type r = None
         \<or> start_time r = None \<or> end_time r = None \<or> start_frame r = None
         \<or> end_frame r = None
      then Inl NotNullViolation
      else if event_id r \<in> set (map event_id rows) then Inl UniqueViolation
      else Inr (rows @ [r]))"

text \<open>\<open>match_metadata\<close> (V3.0): \<open>match_id\<close> is the primary key.\<close>

definition insert_match_metadata ::
  "match_metadata \<Rightarrow> match_metadata list \<Rightarrow> sql_error + match_metadata list" where
  "insert_match_metadata r rows =
     (if match_metadata.match_id r = None then Inl NotNullViolation
      else if match_metadata.match_id r \<in> set (map match_metadata.match_id rows)
      then Inl UniqueViolation
      else Inr (rows @ [r]))"

text \<open>
  \<open>tracking_data\<close> (V3.0): four \<open>NOT NULL\<close> columns, the primary key
  \<open>(match_id, frame)\<close>, and \<open>match_id\<close> references \<open>match_metadata\<close>.
\<close>

definition td_key :: "tracking_data \<Rightarrow> string option \<times> 32 word option" where
  "td_key r = (tracking_data.match_id r, tracking_data.frame r)"

definition insert_tracking_data ::
  "match_metadata list \<Rightarrow> tracking_data \<Rightarrow> tracking_data list
     \<Rightarrow> sql_error + tracking_data list" where
  "insert_tracking_data matches r rows =
     (if tracking_data.match_id r = None \<or> period r = None \<or> tracking_data.frame r = None
         \<or> tracking_data.timestamp_iso r = None
      then Inl NotNullViolation
      else if td_key r \<in> set (map td_key rows) then Inl UniqueViolation
      else if tracking_data.match_id r \<notin> set (map match_metadata.match_id matches)
      then Inl ForeignKeyViolation
      else Inr (rows @ [r]))"

text \<open>
  A table's reachable contents: the rows offered one \<open>INSERT\<close> at a time, a failing
  insert leaving the table as it was.
\<close>

fun load_tracking :: "tracking list \<Rightarrow> tracking list \<Rightarrow> tracking list" where
  "load_tracking rows [] = rows"
| "load_tracking rows (r # rs) =
     (case insert_tracking r rows of
        Inl e \<Rightarrow> load_tracking rows rs
      | Inr rows' \<Rightarrow> load_tracking rows' rs)"

fun load_events :: "events list \<Rightarrow> events list \<Rightarrow> events list" where
  "load_events rows [] = rows"
| "load_events rows (r # rs) =
     (case insert_events r rows of
        Inl e \<Rightarrow> load_events rows rs
      | Inr rows' \<Rightarrow> load_events rows' rs)"

fun load_tracking_data ::
  "match_metadata list \<Rightarrow> tracking_data list \<Rightarrow> tracking_data list \<Rightarrow> tracking_data list"
  where
  "load_tracking_data matches rows [] = rows"
| "load_tracking_data matches rows (r # rs) =
     (case insert_tracking_data matches r rows of
        Inl e \<Rightarrow> load_tracking_data matches rows rs
      | Inr rows' \<Rightarrow> load_tracking_data matches rows' rs)"

text \<open>The orderings an event's span is expected to satisfy (\<open>INTEGER\<close> is signed).\<close>

definition span_ordered :: "events \<Rightarrow> bool" where
  "span_ordered r \<longleftrightarrow>
     (case (start_frame r, end_frame r, start_time r, end_time r) of
        (Some sf, Some ef, Some st, Some et) \<Rightarrow> sint sf \<le> sint ef \<and> st \<le> et
      | _ \<Rightarrow> False)"

subsection \<open>Roles and privileges\<close>

datatype privilege =
  SELECT | INSERT | UPDATE | DELETE | TRUNCATE | REFERENCES | TRIGGER | CONNECT | USAGE | CREATE

datatype object = Database string | Schema string | Table string string

text \<open>
  The statements of the two scripts, by their effect on the catalog. The
  \<open>DO\<close> block of init.sql is \<open>CreateUserIfNotExists\<close>.
\<close>

datatype statement =
    CreateTable string string
  | CreateTableIfNotExists string string
  | CreateRole string
  | CreateUser string
  | CreateUserIfNotExists string
  | Grant privilege object string
  | GrantOnAllTables privilege string string
  | AlterDefaultPrivileges string privilege string
  | GrantRole string string

text \<open>
  The catalog: a role with its login flag, a table with its schema, name and owner, an
  access entry (grantee, privilege, object), a default privilege (creating role, schema,
  privilege on tables, grantee) and a membership (role, member). Only what the scripts
  grant is recorded; what PostgreSQL gives to an owner, a superuser or \<open>PUBLIC\<close> on its
  own is outside them.
\<close>

record catalog =
  databases :: "string list"
  schemas :: "string list"
  roles :: "(string \<times> bool) list"
  tables :: "(string \<times> string \<times> string) list"
  acl :: "(string \<times> privilege \<times> object) list"
  default_acl :: "(string \<times> string \<times> privilege \<times> string) list"
  members :: "(string \<times> string) list"

definition object_exists :: "catalog \<Rightarrow> object \<Rightarrow> bool" where
  "object_exists c obj =
     (case obj of
        Database d \<Rightarrow> d \<in> set (databases c)
      | Schema n \<Rightarrow> n \<in> set (schemas c)
      | Table n t \<Rightarrow> (n, t) \<in> set (map (\<lambda>(n, t, owner). (n, t)) (tables c)))"

definition role_exists :: "catalog \<Rightarrow> string \<Rightarrow> bool" where
  "role_exists c r = (r \<in> set (map fst (roles c)))"

text \<open>
  A new table receives the default privileges that its creating role has set for its
  schema (\<open>ALTER DEFAULT PRIVILEGES\<close> without \<open>FOR ROLE\<close> sets them for the role that
  runs it).
\<close>

definition create_table :: "string \<Rightarrow> string \<Rightarrow> string \<Rightarrow> catalog \<Rightarrow> catalog" where
  "create_table user n t c =
     c\<lparr>tables := tables c @ [(n, t, user)],
       acl := acl c @
         map (\<lambda>(creator, n', p, grantee). (grantee, p, Table n t))
           (filter (\<lambda>(creator, n', p, grantee). creator = user \<and> n' = n) (default_acl c))\<rparr>"

fun exec :: "string \<Rightarrow> statement \<Rightarrow> catalog \<Rightarrow> sql_error + catalog" where
  "exec user (CreateTable n t) c =
     (if \<not> object_exists c (Schema n) then Inl UndefinedObject
      else if object_exists c (Table n t) then Inl DuplicateTable
      else Inr (create_table user n t c))"
| "exec user (CreateTableIfNotExists n t) c =
     (if \<not> object_exists c (Schema n) then Inl UndefinedObject
      else if object_exists c (Table n t) then Inr c
      else Inr (create_table user n t c))"
| "exec user (CreateRole r) c =
     (if role_exists c r then Inl DuplicateObject
      else Inr (c\<lparr>roles := roles c @ [(r, False)]\<rparr>))"
| "exec user (CreateUser r) c =
     (if role_exists c r then Inl DuplicateObject
      else Inr (c\<lparr>roles := roles c @ [(r, True)]\<rparr>))"
| "exec user (CreateUserIfNotExists r) c =
     (if (r, True) \<in> set (roles c) then Inr c
      else if role_exists c r then Inl DuplicateObject
      else Inr (c\<lparr>roles := roles c @ [(r, True)]\<rparr>))"
| "exec user (Grant p obj grantee) c =
     (if \<not> object_exists c obj \<or> \<not> role_exists c grantee then Inl UndefinedObject
      else Inr (c\<lparr>acl := acl c @ [(grantee, p, obj)]\<rparr>))"
| "exec user (GrantOnAllTables p n grantee) c =
     (if \<not> object_exists c (Schema n) \<or> \<not> role_exists c grantee then Inl UndefinedObject
      else Inr (c\<lparr>acl := acl c @
             map (\<lambda>(n', t, owner). (grantee, p, Table n' t))
               (filter (\<lambda>(n', t, owner). n' = n) (tables c))\<rparr>))"
| "exec user (AlterDefaultPrivileges n p grantee) c =
     (if \<not> object_exists c (Schema n) \<or> \<not> role_exists c grantee then Inl UndefinedObject
      else Inr (c\<lparr>default_acl := default_acl c @ [(user, n, p, grantee)]\<rparr>))"
| "exec user (GrantRole r m) c =
     (if \<not> role_exists c r \<or> \<not> role_exists c m then Inl UndefinedObject
      else Inr (c\<lparr>members := members c @ [(r, m)]\<rparr>))"

text \<open>A script stops at its first error.\<close>

fun run_script :: "string \<Rightarrow> statement list \<Rightarrow> catalog \<Rightarrow> sql_error + catalog" where
  "run_script user [] c = Inr c"
| "run_script user (st # sts) c =
     (case exec user st c of Inl e \<Rightarrow> Inl e | Inr c' \<Rightarrow> run_script user sts c')"

text \<open>
  After the script: tables created one statement at a time, each by some role in some
  schema; a failing \<open>CREATE TABLE\<close> leaves the catalog as it was.
\<close>

fun create_later :: "(string \<times> string \<times> string) list \<Rightarrow> catalog \<Rightarrow> catalog" where
  "create_later [] c = c"
| "create_later ((user, n, t) # rest) c =
     (case exec user (CreateTable n t) c of
        Inl e \<Rightarrow> create_later rest c
      | Inr c' \<Rightarrow> create_later rest c')"

text \<open>
  The privileges granted to a role, and those a user has through them: its own and those
  of the roles it is a member of.
\<close>

definition granted :: "catalog \<Rightarrow> string \<Rightarrow> (privilege \<times> object) list" where
  "granted c r = map snd (filter (\<lambda>(grantee, p, obj). grantee = r) (acl c))"

definition effective :: "catalog \<Rightarrow> string \<Rightarrow> (privilege \<times> object) list" where
  "effective c u =
     granted c u @ concat (map (\<lambda>(r, m). granted c r) (filter (\<lambda>(r, m). m = u) (members c)))"

subsection \<open>The two scripts\<close>

definition security_statements :: "statement list" where
  "security_statements =
     [CreateRole ''ai_agent_readonly'',
      Grant CONNECT (Database ''scoptics_db'') ''ai_agent_readonly'',
      Grant USAGE (Schema ''public'') ''ai_agent_readonly'',
      GrantOnAllTables SELECT ''public'' ''ai_agent_readonly'',
      AlterDefaultPrivileges ''public'' SELECT ''ai_agent_readonly'']"

definition init_sql :: "statement list" where
  "init_sql =
     [CreateTableIfNotExists ''public'' ''tracking'',
      CreateTableIfNotExists ''public'' ''events'']
     @ security_statements
     @ [CreateUserIfNotExists ''ai_user'', GrantRole ''ai_agent_readonly'' ''ai_user'']"

definition init_sql_v3 :: "statement list" where
  "init_sql_v3 =
     [CreateTable ''public'' ''match_metadata'',
      CreateTable ''public'' ''tracking_data'']
     @ security_statements
     @ [CreateUser ''ai_user'', GrantRole ''ai_agent_readonly'' ''ai_user'']"

text \<open>
  The database the scripts start from: \<open>scoptics_db\<close> with its \<open>public\<close> schema and
  the role that runs the script.
\<close>

definition fresh :: "string \<Rightarrow> catalog" where
  "fresh user =
     \<lparr>databases = [''scoptics_db''], schemas = [''public''], roles = [(user, True)],
      tables = [], acl = [], default_acl = [], members = []\<rparr>"

subsection \<open>Invariants of the catalog and of the events table\<close>

text \<open>
  What the role may hold: \<open>CONNECT\<close> on the database, \<open>USAGE\<close> on the schema,
  \<open>SELECT\<close> on a table of the schema.
\<close>

definition allowed :: "privilege \<Rightarrow> object \<Rightarrow> bool" where
  "allowed p obj \<longleftrightarrow>
     (p, obj) = (CONNECT, Database ''scoptics_db'') \<or> (p, obj) = (USAGE, Schema ''public'')
     \<or> (p = SELECT \<and> (\<exists>t. obj = Table ''public'' t))"

definition read_only :: "string \<Rightarrow> catalog \<Rightarrow> bool" where
  "read_only user c \<longleftrightarrow>
     default_acl c = [(user, ''public'', SELECT, ''ai_agent_readonly'')]
     \<and> members c = [(''ai_agent_readonly'', ''ai_user'')]
     \<and> (\<forall>(g, p, obj) \<in> set (acl c). g = ''ai_agent_readonly'' \<and> allowed p obj)
     \<and> (\<forall>(n, t, owner) \<in> set (tables c). n = ''public'' \<and> owner = user \<longrightarrow>
           (''ai_agent_readonly'', SELECT, Table ''public'' t) \<in> set (acl c))"

definition events_inv :: "events list \<Rightarrow> events list \<Rightarrow> bool" where
  "events_inv offered rows \<longleftrightarrow>
     distinct (map event_id rows)
     \<and> (\<forall>r \<in> set rows. r \<in> set offered \<and> event_id r \<noteq> None \<and> events.match_id r \<noteq> None
           \<and> event_type r \<noteq> None \<and> start_time r \<noteq> None \<and> end_time r \<noteq> None
           \<and> start_frame r \<noteq> None \<and> end_frame r \<noteq> None)"

section \<open>Results for the front end\<close>

subsection \<open>Facts about the continuation\<close>

lemmas eval_defs = handleQuery_def handleQuery_settle_def try_block_def displayAgentResponse_def
  displayError_def displayUserMessage_def Let_def trim_def is_ws_def lit_def init_def or_else_def

lemma get_prop_truthy: "truthy d \<Longrightarrow> get_prop eng d p = Inr (member (the d) p)"
  by (cases "(eng, d, p)" rule: get_prop.cases) auto

lemma get_prop_defined: "v \<noteq> JNull \<Longrightarrow> get_prop eng (Some v) p = Inr (member v p)"
  by (cases v) auto

lemma displayAgentResponse_cases:
  assumes "r \<noteq> JNull"
  shows "(\<exists>m. displayAgentResponse eng (Some r) s = Inl m)
       \<or> (\<exists>t n. displayAgentResponse eng (Some r) s = Inr (s\<lparr>chat := chat s @ [AgentMessage t n]\<rparr>))"
proof (cases "displayAgentResponse eng (Some r) s")
  case (Inl m)
  then show ?thesis by simp
next
  case (Inr s')
  with assms have "\<exists>t n. s' = s\<lparr>chat := chat s @ [AgentMessage t n]\<rparr>"
    by (auto simp: displayAgentResponse_def get_prop_defined get_prop_truthy
        split: sum.splits option.splits if_splits)
  with Inr show ?thesis by simp
qed

lemma try_block_reads:
  assumes "member data (lit ''response'') = Some r" "r \<noteq> JNull"
  shows "\<exists>e s'. try_block eng (Response True (Json data)) s = (e, s')
           \<and> chatHistory s' = or_else (member r (lit ''updated_history'')) (JArr [])
           \<and> requests s' = requests s"
proof -
  let ?s1 = "s\<lparr>chatHistory := or_else (member r (lit ''updated_history'')) (JArr [])\<rparr>"
  have d: "data \<noteq> JNull" using assms by auto
  have t: "try_block eng (Response True (Json data)) s =
             (case displayAgentResponse eng (Some r) ?s1 of
                Inl m \<Rightarrow> (Some m, ?s1) | Inr s2 \<Rightarrow> (None, s2))"
    using assms d by (simp add: try_block_def get_prop_defined Let_def)
  from displayAgentResponse_cases [OF assms(2), of eng ?s1] show ?thesis
  proof
    assume "\<exists>m. displayAgentResponse eng (Some r) ?s1 = Inl m"
    with t show ?thesis by auto
  next
    assume "\<exists>t n. displayAgentResponse eng (Some r) ?s1
              = Inr (?s1\<lparr>chat := chat ?s1 @ [AgentMessage t n]\<rparr>)"
    with t show ?thesis by auto
  qed
qed

lemma settle_reads:
  assumes "member data (lit ''response'') = Some r" "r \<noteq> JNull"
  shows "chatHistory (handleQuery_settle eng (Response True (Json data)) s)
           = or_else (member r (lit ''updated_history'')) (JArr [])"
    and "requests (handleQuery_settle eng (Response True (Json data)) s) = requests s"
proof -
  from try_block_reads [OF assms, of eng s] obtain e s' where
    t: "try_block eng (Response True (Json data)) s = (e, s')"
    and h: "chatHistory s' = or_else (member r (lit ''updated_history'')) (JArr [])"
    and q: "requests s' = requests s"
    by blast
  from t h show "chatHistory (handleQuery_settle eng (Response True (Json data)) s)
           = or_else (member r (lit ''updated_history'')) (JArr [])"
    by (cases e) (simp_all add: handleQuery_settle_def displayError_def)
  from t q show "requests (handleQuery_settle eng (Response True (Json data)) s) = requests s"
    by (cases e) (simp_all add: handleQuery_settle_def displayError_def)
qed

lemma unread_failure:
  "\<not> reads_history out \<Longrightarrow> \<exists>m. try_block eng out s = (Some m, s)"
proof (cases out)
  case (Rejected m)
  then show ?thesis by (simp add: try_block_def)
next
  case (Response ok b)
  assume u: "\<not> reads_history out"
  show ?thesis
  proof (cases ok)
    case False
    with Response show ?thesis
      by (auto simp: try_block_def split: body.splits sum.splits)
  next
    case True
    show ?thesis
    proof (cases b)
      case (NotJson m)
      with Response True show ?thesis by (simp add: try_block_def)
    next
      case (Json data)
      show ?thesis
      proof (cases "data = JNull")
        case n: True
        with Response True Json show ?thesis by (simp add: try_block_def)
      next
        case n: False
        from u Response True Json
        have "member data (lit ''response'') = None \<or> member data (lit ''response'') = Some JNull"
          by (auto simp: reads_history_def split: option.splits)
        with Response True Json n show ?thesis
          by (auto simp: try_block_def get_prop_defined)
      qed
    qed
  qed
qed

lemma settle_failure:
  "\<not> is_success (Settle out) \<Longrightarrow> \<exists>m. try_block eng out s = (Some m, s)"
  by (cases out) (auto simp: try_block_def split: body.splits sum.splits)

lemma step_no_success:
  assumes "\<not> is_success e"
  shows "chatHistory (step eng e s) = chatHistory s \<and>
         (\<exists>rs. requests (step eng e s) = requests s @ rs \<and> (\<forall>q\<in>set rs. chat_history q = chatHistory s))"
proof (cases e)
  case (Edit v)
  then show ?thesis by simp
next
  case Click
  then show ?thesis by (simp add: handleQuery_def Let_def displayUserMessage_def)
next
  case (Keyup k)
  then show ?thesis by (simp add: handleQuery_def Let_def displayUserMessage_def)
next
  case (Settle out)
  with assms obtain m where "try_block eng out s = (Some m, s)"
    using settle_failure by blast
  with Settle show ?thesis
    by (simp add: handleQuery_settle_def displayError_def)
qed

lemma run_no_success:
  "no_success es \<Longrightarrow>
     chatHistory (run eng es s) = chatHistory s \<and>
     (\<exists>rs. requests (run eng es s) = requests s @ rs \<and> (\<forall>q\<in>set rs. chat_history q = chatHistory s))"
proof (induction es arbitrary: s)
  case Nil
  then show ?case by simp
next
  case (Cons e es)
  then have e: "\<not> is_success e" and es: "no_success es"
    by (simp_all add: no_success_def)
  from step_no_success [OF e, of eng s] obtain rs1 where
    h1: "chatHistory (step eng e s) = chatHistory s"
    and r1: "requests (step eng e s) = requests s @ rs1"
    and q1: "\<forall>q\<in>set rs1. chat_history q = chatHistory s"
    by blast
  from Cons.IH [OF es, of "step eng e s"] obtain rs2 where
    h2: "chatHistory (run eng es (step eng e s)) = chatHistory (step eng e s)"
    and r2: "requests (run eng es (step eng e s)) = requests (step eng e s) @ rs2"
    and q2: "\<forall>q\<in>set rs2. chat_history q = chatHistory (step eng e s)"
    by blast
  have "requests (run eng (e # es) s) = requests s @ (rs1 @ rs2)"
    using r1 r2 by simp
  moreover have "\<forall>q\<in>set (rs1 @ rs2). chat_history q = chatHistory s"
    using q1 q2 h1 by auto
  moreover have "chatHistory (run eng (e # es) s) = chatHistory s"
    using h1 h2 by simp
  ultimately show ?case by blast
qed

subsection \<open>One request at a time\<close>

text \<open>
  The button path serialises: while a request is in flight the button is disabled and a
  click does nothing, so a run of events without an Enter key release never has two
  requests in flight.
\<close>

lemma handleQuery_serial: "serial s \<Longrightarrow> \<not> button_disabled s \<Longrightarrow> serial (handleQuery s)"
  by (auto simp: serial_def handleQuery_def Let_def displayUserMessage_def)

lemma settle_serial: "serial s \<Longrightarrow> in_flight s \<noteq> 0 \<Longrightarrow> serial (handleQuery_settle eng out s)"
  by (auto simp: serial_def handleQuery_settle_def Let_def split: prod.splits option.splits)

lemma step_serial: "\<not> is_enter e \<Longrightarrow> serial s \<Longrightarrow> serial (step eng e s)"
proof (cases e)
  case (Edit v)
  assume "serial s" with Edit show ?thesis by (simp add: serial_def)
next
  case Click
  assume "serial s" with Click show ?thesis by (simp add: handleQuery_serial)
next
  case (Keyup k)
  assume "\<not> is_enter e" "serial s" with Keyup show ?thesis by simp
next
  case (Settle out)
  assume "serial s" with Settle show ?thesis by (simp add: settle_serial)
qed

lemma button_path_serialises:
  "list_all (\<lambda>e. \<not> is_enter e) es \<Longrightarrow> serial s \<Longrightarrow> serial (run eng es s)"
  by (induction es arbitrary: s) (simp_all add: step_serial)

lemma button_path_one_in_flight:
  "list_all (\<lambda>e. \<not> is_enter e) es \<Longrightarrow> in_flight (run eng es init) \<le> 1"
proof -
  assume a: "list_all (\<lambda>e. \<not> is_enter e) es"
  have "serial init" by (simp add: serial_def init_def)
  with a have "serial (run eng es init)" by (rule button_path_serialises)
  then show ?thesis by (auto simp: serial_def)
qed

text \<open>
  C1: at most one request is in flight per session. The Enter key path calls handleQuery
  without the button's guard: typing a query and pressing Enter twice, before the first
  response arrives, leaves two requests in flight.
\<close>

theorem enter_key_starts_second_request:
  "in_flight (run eng [Edit (lit ''a''), Keyup (lit ''Enter''), Edit (lit ''b''),
                       Keyup (lit ''Enter'')] init) = 2"
  by (simp add: handleQuery_def Let_def trim_def is_ws_def lit_def init_def
      displayUserMessage_def)

subsection \<open>Empty queries\<close>

text \<open>
  C5: when the trimmed input is empty, handleQuery changes nothing: no request is logged,
  no message is displayed, chatHistory is unchanged. A request is sent only when the
  trimmed input is not empty.
\<close>

theorem empty_query_is_ignored:
  "(trim (input_value s) = [] \<longrightarrow> handleQuery s = s)
   \<and> (requests (handleQuery s) \<noteq> requests s \<longrightarrow> trim (input_value s) \<noteq> [])"
  by (simp add: handleQuery_def Let_def)

theorem empty_query_is_ignored_witness:
  "trim (input_value (init\<lparr>input_value := [0x20, 0x9, 0x3000]\<rparr>)) = []
   \<and> handleQuery (init\<lparr>input_value := [0x20, 0x9, 0x3000]\<rparr>) = init\<lparr>input_value := [0x20, 0x9, 0x3000]\<rparr>
   \<and> requests (handleQuery (init\<lparr>input_value := lit '' hi ''\<rparr>)) \<noteq> requests (init\<lparr>input_value := lit '' hi ''\<rparr>)
   \<and> trim (input_value (init\<lparr>input_value := lit '' hi ''\<rparr>)) \<noteq> []"
proof -
  have e: "trim (input_value (init\<lparr>input_value := [0x20, 0x9, 0x3000]\<rparr>)) = []"
    by (simp add: trim_def is_ws_def)
  have r: "requests (handleQuery (init\<lparr>input_value := lit '' hi ''\<rparr>))
             \<noteq> requests (init\<lparr>input_value := lit '' hi ''\<rparr>)"
    by (simp add: handleQuery_def Let_def trim_def is_ws_def lit_def init_def
        displayUserMessage_def)
  from e r empty_query_is_ignored [of "init\<lparr>input_value := [0x20, 0x9, 0x3000]\<rparr>"]
    empty_query_is_ignored [of "init\<lparr>input_value := lit '' hi ''\<rparr>"]
  show ?thesis by blast
qed

subsection \<open>The history carried between requests\<close>

text \<open>
  C6: a 2xx response whose body carries an updated_history replaces the stored chat
  history by it (the value has to be truthy, as every array is, the empty one too); every
  request sent from then on, until the next 2xx response, carries that history, and every
  request sent before any 2xx response carries the empty history.
\<close>

theorem history_carried_forward:
  assumes "member data (lit ''response'') = Some r"
    and "member r (lit ''updated_history'') = Some h"
    and "truthy (Some h)"
    and "0 < in_flight s"
    and "no_success es"
  shows "chatHistory (step eng (Settle (Response True (Json data))) s) = h
       \<and> (\<forall>q \<in> set (drop (length (requests s))
              (requests (run eng es (step eng (Settle (Response True (Json data))) s)))).
            chat_history q = h)
       \<and> (\<forall>q \<in> set (requests (run eng es init)). chat_history q = JArr [])"
proof -
  let ?s1 = "step eng (Settle (Response True (Json data))) s"
  have r: "r \<noteq> JNull" using assms(2) by auto
  from settle_reads [OF assms(1) r, of eng s] assms(2,3,4)
  have h: "chatHistory ?s1 = h" and q: "requests ?s1 = requests s"
    by (simp_all add: or_else_def)
  from run_no_success [OF assms(5), of eng ?s1] obtain rs where
    "requests (run eng es ?s1) = requests ?s1 @ rs" "\<forall>q\<in>set rs. chat_history q = chatHistory ?s1"
    by blast
  with h q have a: "\<forall>q \<in> set (drop (length (requests s)) (requests (run eng es ?s1))).
            chat_history q = h"
    by simp
  from run_no_success [OF assms(5), of eng init]
  have b: "\<forall>q \<in> set (requests (run eng es init)). chat_history q = JArr []"
    by (auto simp: init_def)
  from h a b show ?thesis by blast
qed

theorem history_carried_forward_witness:
  "member (JObj [(lit ''response'', JObj [(lit ''updated_history'', JArr [JStr (lit ''t1'')])])])
     (lit ''response'') = Some (JObj [(lit ''updated_history'', JArr [JStr (lit ''t1'')])])
   \<and> member (JObj [(lit ''updated_history'', JArr [JStr (lit ''t1'')])]) (lit ''updated_history'')
       = Some (JArr [JStr (lit ''t1'')])
   \<and> truthy (Some (JArr [JStr (lit ''t1'')]))
   \<and> 0 < in_flight (handleQuery (init\<lparr>input_value := lit ''a''\<rparr>))
   \<and> no_success [Edit (lit ''b''), Keyup (lit ''Enter''),
                  Settle (Response False (NotJson (lit ''bad''))), Edit (lit ''c''), Click]
   \<and> chatHistory (step sample_engine
         (Settle (Response True (Json (JObj [(lit ''response'',
            JObj [(lit ''updated_history'', JArr [JStr (lit ''t1'')])])]))))
         (handleQuery (init\<lparr>input_value := lit ''a''\<rparr>))) = JArr [JStr (lit ''t1'')]
   \<and> map chat_history (requests (run sample_engine
         [Edit (lit ''b''), Keyup (lit ''Enter''),
          Settle (Response False (NotJson (lit ''bad''))), Edit (lit ''c''), Click]
         (step sample_engine
           (Settle (Response True (Json (JObj [(lit ''response'',
              JObj [(lit ''updated_history'', JArr [JStr (lit ''t1'')])])]))))
           (handleQuery (init\<lparr>input_value := lit ''a''\<rparr>)))))
       = [JArr [], JArr [JStr (lit ''t1'')], JArr [JStr (lit ''t1'')]]"
proof -
  let ?r = "JObj [(lit ''updated_history'', JArr [JStr (lit ''t1'')])]"
  let ?d = "JObj [(lit ''response'', ?r)]"
  let ?s = "handleQuery (init\<lparr>input_value := lit ''a''\<rparr>)"
  let ?es = "[Edit (lit ''b''), Keyup (lit ''Enter''),
              Settle (Response False (NotJson (lit ''bad''))), Edit (lit ''c''), Click]"
  have h1: "member ?d (lit ''response'') = Some ?r" by (simp add: lit_def)
  have h2: "member ?r (lit ''updated_history'') = Some (JArr [JStr (lit ''t1'')])"
    by (simp add: lit_def)
  have h3: "truthy (Some (JArr [JStr (lit ''t1'')]))" by simp
  have h4: "0 < in_flight ?s" by (simp add: eval_defs)
  have h5: "no_success ?es" by (simp add: no_success_def)
  have c: "chatHistory (step sample_engine (Settle (Response True (Json ?d))) ?s)
             = JArr [JStr (lit ''t1'')]"
    using history_carried_forward [OF h1 h2 h3 h4 h5, of sample_engine] by blast
  have m: "map chat_history (requests (run sample_engine ?es
             (step sample_engine (Settle (Response True (Json ?d))) ?s)))
           = [JArr [], JArr [JStr (lit ''t1'')], JArr [JStr (lit ''t1'')]]"
    by (simp add: eval_defs)
  from h1 h2 h3 h4 h5 c m show ?thesis by blast
qed

text \<open>
  C7, as stated: every processed utterance, also one whose call ends in an error, is
  appended to the conversation state carried forward. It fails: after the utterance "hi"
  and a non-2xx response, the stored history is still the empty array.
\<close>

theorem error_drops_utterance_counterexample:
  "chatHistory (run sample_engine
      [Edit (lit ''hi''), Keyup (lit ''Enter''),
       Settle (Response False (Json (JObj [(lit ''detail'', JStr (lit ''boom''))])))] init)
   = JArr []"
  by (simp add: eval_defs)

text \<open>
  C7, amended: sending an utterance leaves the stored chat history as it is; when the
  call ends in an error before a history is read from the response (the fetch rejects,
  the response is non-2xx, the body is not JSON or has no response member that is not
  null), handling that outcome leaves the history exactly as it was just before, whatever
  other calls are pending, and shows the error in the chat; over any run of utterances,
  rejected fetches and non-2xx responses the history never changes. A 2xx body with a
  response member that is not null sets the history to its updated_history, or to the
  empty array, also when displaying it throws afterwards. In no case does the caller
  append a turn of its own.
\<close>

theorem error_leaves_history_unchanged:
  "chatHistory (handleQuery s) = chatHistory s
   \<and> (fst (try_block eng out s) = Some m \<and> \<not> reads_history out \<longrightarrow>
        chatHistory (handleQuery_settle eng out s) = chatHistory s
        \<and> chat (handleQuery_settle eng out s) = chat s @ [ErrorMessage (error_html m)])
   \<and> (no_success es \<longrightarrow> chatHistory (run eng es s) = chatHistory s)
   \<and> (member data (lit ''response'') = Some r \<and> r \<noteq> JNull \<longrightarrow>
        chatHistory (handleQuery_settle eng (Response True (Json data)) s)
          = or_else (member r (lit ''updated_history'')) (JArr []))"
proof -
  have a: "chatHistory (handleQuery s) = chatHistory s"
    by (simp add: handleQuery_def Let_def displayUserMessage_def)
  have b: "chatHistory (handleQuery_settle eng out s) = chatHistory s
        \<and> chat (handleQuery_settle eng out s) = chat s @ [ErrorMessage (error_html m)]"
    if t: "fst (try_block eng out s) = Some m" and u: "\<not> reads_history out"
  proof -
    from unread_failure [OF u, of eng s] t have "try_block eng out s = (Some m, s)"
      by auto
    then show ?thesis by (simp add: handleQuery_settle_def displayError_def)
  qed
  have c: "chatHistory (run eng es s) = chatHistory s" if "no_success es"
    using run_no_success [OF that, of eng s] by blast
  have d: "chatHistory (handleQuery_settle eng (Response True (Json data)) s)
          = or_else (member r (lit ''updated_history'')) (JArr [])"
    if "member data (lit ''response'') = Some r" and "r \<noteq> JNull"
    using settle_reads(1) [OF that] .
  from a b c d show ?thesis by blast
qed

theorem error_leaves_history_unchanged_witness:
  "fst (try_block sample_engine
        (Response False (Json (JObj [(lit ''detail'', JStr (lit ''boom''))])))
        (run sample_engine
          [Edit (lit ''a''), Keyup (lit ''Enter''), Edit (lit ''b''), Keyup (lit ''Enter''),
           Settle (Response True (Json (JObj [(lit ''response'',
             JObj [(lit ''updated_history'', JArr [JStr (lit ''t1'')])])])))] init))
     = Some (lit ''boom'')
   \<and> \<not> reads_history (Response False (Json (JObj [(lit ''detail'', JStr (lit ''boom''))])))
   \<and> no_success [Edit (lit ''c''), Keyup (lit ''Enter''), Settle (Rejected (lit ''offline'')),
                  Settle (Response False (NotJson (lit ''bad'')))]
   \<and> member (JObj [(lit ''response'', JObj [(lit ''conversational_response'',
          JObj [(lit ''toString'', JNum 1)])])]) (lit ''response'')
       = Some (JObj [(lit ''conversational_response'', JObj [(lit ''toString'', JNum 1)])])
   \<and> chatHistory (handleQuery_settle sample_engine
        (Response False (Json (JObj [(lit ''detail'', JStr (lit ''boom''))])))
        (run sample_engine
          [Edit (lit ''a''), Keyup (lit ''Enter''), Edit (lit ''b''), Keyup (lit ''Enter''),
           Settle (Response True (Json (JObj [(lit ''response'',
             JObj [(lit ''updated_history'', JArr [JStr (lit ''t1'')])])])))] init))
       = JArr [JStr (lit ''t1'')]
   \<and> chatHistory (run sample_engine
        [Edit (lit ''c''), Keyup (lit ''Enter''), Settle (Rejected (lit ''offline'')),
         Settle (Response False (NotJson (lit ''bad'')))]
        (init\<lparr>chatHistory := JArr [JStr (lit ''t1'')]\<rparr>))
       = JArr [JStr (lit ''t1'')]
   \<and> chatHistory (handleQuery_settle sample_engine
        (Response True (Json (JObj [(lit ''response'', JObj [(lit ''conversational_response'',
           JObj [(lit ''toString'', JNum 1)])])])))
        (init\<lparr>chatHistory := JArr [JStr (lit ''t1'')], in_flight := 1\<rparr>))
       = JArr []"
proof -
  let ?out = "Response False (Json (JObj [(lit ''detail'', JStr (lit ''boom''))]))"
  let ?s = "run sample_engine
          [Edit (lit ''a''), Keyup (lit ''Enter''), Edit (lit ''b''), Keyup (lit ''Enter''),
           Settle (Response True (Json (JObj [(lit ''response'',
             JObj [(lit ''updated_history'', JArr [JStr (lit ''t1'')])])])))] init"
  let ?es = "[Edit (lit ''c''), Keyup (lit ''Enter''), Settle (Rejected (lit ''offline'')),
              Settle (Response False (NotJson (lit ''bad'')))]"
  let ?s2 = "init\<lparr>chatHistory := JArr [JStr (lit ''t1'')]\<rparr>"
  let ?r = "JObj [(lit ''conversational_response'', JObj [(lit ''toString'', JNum 1)])]"
  let ?d = "JObj [(lit ''response'', ?r)]"
  let ?s3 = "init\<lparr>chatHistory := JArr [JStr (lit ''t1'')], in_flight := 1\<rparr>"
  have h1: "fst (try_block sample_engine ?out ?s) = Some (lit ''boom'')"
    by (simp add: try_block_def or_else_def lit_def)
  have h2: "\<not> reads_history ?out" by (simp add: reads_history_def)
  have h3: "no_success ?es" by (simp add: no_success_def)
  have h4: "member ?d (lit ''response'') = Some ?r" by (simp add: lit_def)
  have h5: "?r \<noteq> JNull" by simp
  have s: "chatHistory ?s = JArr [JStr (lit ''t1'')]" by (simp add: eval_defs)
  have c1: "chatHistory (handleQuery_settle sample_engine ?out ?s) = JArr [JStr (lit ''t1'')]"
    using error_leaves_history_unchanged
      [of ?s sample_engine ?out "lit ''boom''" "[]" JNull JNull] h1 h2 s
    by simp
  have c2: "chatHistory (run sample_engine ?es ?s2) = JArr [JStr (lit ''t1'')]"
    using error_leaves_history_unchanged
      [of ?s2 sample_engine ?out "lit ''boom''" ?es JNull JNull] h3
    by simp
  have "or_else (member ?r (lit ''updated_history'')) (JArr []) = JArr []"
    by (simp add: or_else_def lit_def)
  then have c3: "chatHistory (handleQuery_settle sample_engine (Response True (Json ?d)) ?s3)
                   = JArr []"
    using error_leaves_history_unchanged
      [of ?s3 sample_engine ?out "lit ''boom''" "[]" ?d ?r] h4 h5
    by simp
  from h1 h2 h3 h4 c1 c2 c3 show ?thesis by blast
qed

subsection \<open>Error details\<close>




subsection \<open>A 2xx response without a history\<close>

text \<open>
  C10, as stated: every 2xx response whose body lacks a truthy response.updated_history
  resets the stored history to the empty array. It fails for a body without a response
  member: reading updated_history throws, and the history collected so far is kept.
\<close>

theorem missing_response_counterexample:
  "chatHistory (run sample_engine
      [Edit (lit ''a''), Keyup (lit ''Enter''),
       Settle (Response True (Json (JObj [(lit ''response'',
          JObj [(lit ''updated_history'', JArr [JStr (lit ''turn'')])])]))),
       Edit (lit ''b''), Keyup (lit ''Enter''),
       Settle (Response True (Json (JObj [])))] init)
   = JArr [JStr (lit ''turn'')]"
  by (simp add: eval_defs sample_engine_def)

text \<open>
  C10, amended: for a 2xx response whose body has a response member that is not null,
  and whose response.updated_history is missing or falsy, the stored history becomes
  the empty array.
\<close>

theorem falsy_history_resets:
  assumes "member data (lit ''response'') = Some r" and "r \<noteq> JNull"
    and "\<not> truthy (member r (lit ''updated_history''))"
  shows "chatHistory (handleQuery_settle eng (Response True (Json data)) s) = JArr []"
proof -
  from assms(3) have "or_else (member r (lit ''updated_history'')) (JArr []) = JArr []"
    by (cases "member r (lit ''updated_history'')") (simp_all add: or_else_def)
  with settle_reads(1) [OF assms(1,2), of eng s] show ?thesis
    by simp
qed


theorem falsy_history_resets_witness:
  "member (JObj [(lit ''response'', JObj [(lit ''conversational_response'', JStr (lit ''hi''))])])
     (lit ''response'') = Some (JObj [(lit ''conversational_response'', JStr (lit ''hi''))])
   \<and> JObj [(lit ''conversational_response'', JStr (lit ''hi''))] \<noteq> JNull
   \<and> \<not> truthy (member (JObj [(lit ''conversational_response'', JStr (lit ''hi''))])
                  (lit ''updated_history''))
   \<and> chatHistory (handleQuery_settle sample_engine
        (Response True (Json (JObj [(lit ''response'',
           JObj [(lit ''conversational_response'', JStr (lit ''hi''))])])))
        (init\<lparr>chatHistory := JArr [JStr (lit ''t1'')], in_flight := 1\<rparr>)) = JArr []"
proof -
  let ?r = "JObj [(lit ''conversational_response'', JStr (lit ''hi''))]"
  let ?d = "JObj [(lit ''response'', ?r)]"
  have h1: "member ?d (lit ''response'') = Some ?r" by (simp add: lit_def)
  have h2: "?r \<noteq> JNull" by simp
  have h3: "\<not> truthy (member ?r (lit ''updated_history''))" by (simp add: lit_def)
  from falsy_history_resets [OF h1 h2 h3, of sample_engine
      "init\<lparr>chatHistory := JArr [JStr (lit ''t1'')], in_flight := 1\<rparr>"] h1 h2 h3
  show ?thesis by blast
qed

section \<open>Results for the database\<close>

subsection \<open>The privileges of the agent role\<close>

lemmas sql_defs = security_statements_def fresh_def object_exists_def role_exists_def
  create_table_def

lemma init_sql_runs:
  assumes "user \<noteq> ''ai_agent_readonly''" "user \<noteq> ''ai_user''"
  shows "\<exists>c. run_script user init_sql (fresh user) = Inr c \<and> read_only user c"
  using assms by (simp add: init_sql_def sql_defs read_only_def allowed_def)

lemma init_sql_v3_runs:
  assumes "user \<noteq> ''ai_agent_readonly''" "user \<noteq> ''ai_user''"
  shows "\<exists>c. run_script user init_sql_v3 (fresh user) = Inr c \<and> read_only user c"
  using assms by (simp add: init_sql_v3_def sql_defs read_only_def allowed_def)

lemma create_table_read_only:
  assumes "read_only user c"
  shows "read_only user (create_table who n t c)"
proof (cases "who = user \<and> n = ''public''")
  case True
  with assms show ?thesis
    by (auto simp: read_only_def create_table_def allowed_def)
next
  case False
  with assms show ?thesis
    by (auto simp: read_only_def create_table_def allowed_def)
qed

lemma create_later_read_only:
  "read_only user c \<Longrightarrow> read_only user (create_later later c)"
proof (induction later arbitrary: c)
  case Nil
  then show ?case by simp
next
  case (Cons x later)
  obtain who n t where x: "x = (who, n, t)" by (cases x) auto
  show ?case
  proof (cases "exec who (CreateTable n t) c")
    case (Inl e)
    with x Cons show ?thesis by simp
  next
    case (Inr c')
    then have "c' = create_table who n t c" by (auto split: if_splits)
    with Cons.prems have "read_only user c'" by (simp add: create_table_read_only)
    with Cons.IH x Inr show ?thesis by simp
  qed
qed

lemma read_only_granted:
  assumes "read_only user c"
  shows "(\<forall>(p, obj) \<in> set (effective c ''ai_user'') \<union> set (granted c ''ai_agent_readonly'').
            (p, obj) = (CONNECT, Database ''scoptics_db'') \<or> (p, obj) = (USAGE, Schema ''public'')
            \<or> (p = SELECT \<and> (\<exists>t. obj = Table ''public'' t)))
       \<and> (\<forall>(n, t, owner) \<in> set (tables c). n = ''public'' \<and> owner = user \<longrightarrow>
            (SELECT, Table ''public'' t) \<in> set (granted c ''ai_agent_readonly''))
       \<and> effective c ''ai_user'' = granted c ''ai_agent_readonly''"
proof -
  have g: "\<And>r p obj. (p, obj) \<in> set (granted c r) \<Longrightarrow> (r, p, obj) \<in> set (acl c)"
    by (auto simp: granted_def)
  have g': "\<And>r p obj. (r, p, obj) \<in> set (acl c) \<Longrightarrow> (p, obj) \<in> set (granted c r)"
    by (force simp: granted_def)
  have a: "\<And>r p obj. (r, p, obj) \<in> set (acl c) \<Longrightarrow> allowed p obj"
    using assms by (auto simp: read_only_def)
  have "filter (\<lambda>(grantee, p, obj). grantee = ''ai_user'') (acl c) = []"
    using assms by (auto simp: read_only_def filter_empty_conv)
  then have u: "granted c ''ai_user'' = []" by (simp add: granted_def)
  have m: "members c = [(''ai_agent_readonly'', ''ai_user'')]"
    using assms by (simp add: read_only_def)
  from u m have 3: "effective c ''ai_user'' = granted c ''ai_agent_readonly''"
    by (simp add: effective_def)
  have 1: "\<forall>(p, obj) \<in> set (effective c ''ai_user'') \<union> set (granted c ''ai_agent_readonly'').
            (p, obj) = (CONNECT, Database ''scoptics_db'') \<or> (p, obj) = (USAGE, Schema ''public'')
            \<or> (p = SELECT \<and> (\<exists>t. obj = Table ''public'' t))"
  proof -
    have "(p, obj) = (CONNECT, Database ''scoptics_db'') \<or> (p, obj) = (USAGE, Schema ''public'')
            \<or> (p = SELECT \<and> (\<exists>t. obj = Table ''public'' t))"
      if m: "(p, obj) \<in> set (effective c ''ai_user'') \<union> set (granted c ''ai_agent_readonly'')"
      for p obj
    proof -
      from m 3 have "(''ai_agent_readonly'', p, obj) \<in> set (acl c)" using g by auto
      then have "allowed p obj" by (rule a)
      then show ?thesis by (simp add: allowed_def)
    qed
    then show ?thesis by blast
  qed
  have 2: "\<forall>(n, t, owner) \<in> set (tables c). n = ''public'' \<and> owner = user \<longrightarrow>
            (SELECT, Table ''public'' t) \<in> set (granted c ''ai_agent_readonly'')"
    using assms g' by (fastforce simp: read_only_def)
  from 1 2 3 show ?thesis by blast
qed

text \<open>
  What does hold of the privileges. After either script, run on a fresh database by a role
  other than the two it creates, and after any tables created later by any roles:
  ai_user has exactly the privileges of ai_agent_readonly; each of them is CONNECT on the
  database, USAGE on the schema public or SELECT on a table of public (never INSERT,
  UPDATE, DELETE or CREATE); and SELECT is held on every table of public that the role
  which ran the script has created, at the time of the script or later.
\<close>

lemma agent_role_never_writes:
  assumes "user \<noteq> ''ai_agent_readonly''" and "user \<noteq> ''ai_user''"
    and "script = init_sql \<or> script = init_sql_v3"
  shows "\<exists>c. run_script user script (fresh user) = Inr c
           \<and> (\<forall>(p, obj) \<in> set (effective (create_later later c) ''ai_user'')
                             \<union> set (granted (create_later later c) ''ai_agent_readonly'').
                 (p, obj) = (CONNECT, Database ''scoptics_db'')
                 \<or> (p, obj) = (USAGE, Schema ''public'')
                 \<or> (p = SELECT \<and> (\<exists>t. obj = Table ''public'' t)))
           \<and> (\<forall>(n, t, owner) \<in> set (tables (create_later later c)).
                 n = ''public'' \<and> owner = user \<longrightarrow>
                 (SELECT, Table ''public'' t)
                   \<in> set (granted (create_later later c) ''ai_agent_readonly''))
           \<and> effective (create_later later c) ''ai_user''
               = granted (create_later later c) ''ai_agent_readonly''"
proof -
  from assms obtain c where c: "run_script user script (fresh user) = Inr c" "read_only user c"
    using init_sql_runs init_sql_v3_runs by blast
  then have "read_only user (create_later later c)" by (simp add: create_later_read_only)
  from read_only_granted [OF this] c(1) show ?thesis by blast
qed

text \<open>
  C2: the role holds SELECT, and only SELECT, on every table of the schema public,
  the tables created after the script included. The scripts grant SELECT on the tables
  that exist when they run and set the default privilege without FOR ROLE, that is for
  the tables their own role creates. After init.sql, and after the V3.0 script, run by
  postgres, a table staging created in public by another role, etl, carries no grant:
  neither ai_agent_readonly nor ai_user holds SELECT on it.
\<close>

theorem other_role_table_gets_no_select:
  "(case run_script ''postgres'' init_sql (fresh ''postgres'') of
      Inl e \<Rightarrow> False
    | Inr c \<Rightarrow>
        tables (create_later [(''etl'', ''public'', ''staging'')] c)
          = [(''public'', ''tracking'', ''postgres''), (''public'', ''events'', ''postgres''),
             (''public'', ''staging'', ''etl'')]
        \<and> granted (create_later [(''etl'', ''public'', ''staging'')] c) ''ai_agent_readonly''
          = [(CONNECT, Database ''scoptics_db''), (USAGE, Schema ''public''),
             (SELECT, Table ''public'' ''tracking''), (SELECT, Table ''public'' ''events'')]
        \<and> effective (create_later [(''etl'', ''public'', ''staging'')] c) ''ai_user''
          = [(CONNECT, Database ''scoptics_db''), (USAGE, Schema ''public''),
             (SELECT, Table ''public'' ''tracking''), (SELECT, Table ''public'' ''events'')])
   \<and> (case run_script ''postgres'' init_sql_v3 (fresh ''postgres'') of
      Inl e \<Rightarrow> False
    | Inr c \<Rightarrow>
        tables (create_later [(''etl'', ''public'', ''staging'')] c)
          = [(''public'', ''match_metadata'', ''postgres''),
             (''public'', ''tracking_data'', ''postgres''), (''public'', ''staging'', ''etl'')]
        \<and> granted (create_later [(''etl'', ''public'', ''staging'')] c) ''ai_agent_readonly''
          = [(CONNECT, Database ''scoptics_db''), (USAGE, Schema ''public''),
             (SELECT, Table ''public'' ''match_metadata''),
             (SELECT, Table ''public'' ''tracking_data'')]
        \<and> effective (create_later [(''etl'', ''public'', ''staging'')] c) ''ai_user''
          = [(CONNECT, Database ''scoptics_db''), (USAGE, Schema ''public''),
             (SELECT, Table ''public'' ''match_metadata''),
             (SELECT, Table ''public'' ''tracking_data'')])"
  by (simp add: init_sql_def init_sql_v3_def sql_defs granted_def effective_def)

subsection \<open>Keys of the tracking tables\<close>

text \<open>
  The V3.0 table tracking_data keeps (match_id, frame) unique: its primary key refuses
  a second row with the same pair.
\<close>

lemma insert_tracking_data_distinct:
  "distinct (map td_key rows) \<Longrightarrow> insert_tracking_data matches r rows = Inr rows'
     \<Longrightarrow> distinct (map td_key rows')"
  by (auto simp: insert_tracking_data_def split: if_splits)

lemma tracking_data_key_unique:
  "distinct (map td_key rows) \<Longrightarrow> distinct (map td_key (load_tracking_data matches rows rs))"
proof (induction rs arbitrary: rows)
  case Nil
  then show ?case by simp
next
  case (Cons r rs)
  show ?case
  proof (cases "insert_tracking_data matches r rows")
    case (Inl e)
    with Cons show ?thesis by simp
  next
    case (Inr rows')
    with Cons.prems have "distinct (map td_key rows')"
      by (simp add: insert_tracking_data_distinct)
    with Cons.IH Inr show ?thesis by simp
  qed
qed

text \<open>
  C3: (match_id, frame[, entity]) identifies a tracking row, enforced by the schema.
  The table tracking of init.sql declares no key: the same row inserted twice is stored
  twice.
\<close>

theorem tracking_accepts_duplicate_rows:
  "load_tracking []
     [\<lparr>tracking.match_id = Some ''m1'', frame = Some 7, timestamp_iso = Some 0,
       team_id = Some ''home'', player_id = Some ''p9'', pos_x = None, pos_y = None,
       pos_z = None, speed = None, orientation = None\<rparr>,
      \<lparr>tracking.match_id = Some ''m1'', frame = Some 7, timestamp_iso = Some 0,
       team_id = Some ''home'', player_id = Some ''p9'', pos_x = None, pos_y = None,
       pos_z = None, speed = None, orientation = None\<rparr>]
   = [\<lparr>tracking.match_id = Some ''m1'', frame = Some 7, timestamp_iso = Some 0,
       team_id = Some ''home'', player_id = Some ''p9'', pos_x = None, pos_y = None,
       pos_z = None, speed = None, orientation = None\<rparr>,
      \<lparr>tracking.match_id = Some ''m1'', frame = Some 7, timestamp_iso = Some 0,
       team_id = Some ''home'', player_id = Some ''p9'', pos_x = None, pos_y = None,
       pos_z = None, speed = None, orientation = None\<rparr>]"
  by (simp add: insert_tracking_def)

subsection \<open>The events table\<close>

text \<open>
  C4, as stated: every stored event has start_frame \<le> end_frame and
  start_time \<le> end_time, guaranteed by the store. It fails: the table accepts an
  event that ends before it starts.
\<close>

theorem events_accepts_reversed_span_counterexample:
  "load_events []
     [\<lparr>event_id = Some ''e1'', events.match_id = Some ''m1'', event_type = Some ''pass'',
       start_time = Some 200, end_time = Some 100, start_frame = Some 10, end_frame = Some 5,
       team_id = None, players_involved = None, metadata_json = None\<rparr>]
   = [\<lparr>event_id = Some ''e1'', events.match_id = Some ''m1'', event_type = Some ''pass'',
       start_time = Some 200, end_time = Some 100, start_frame = Some 10, end_frame = Some 5,
       team_id = None, players_involved = None, metadata_json = None\<rparr>]
   \<and> \<not> span_ordered
       \<lparr>event_id = Some ''e1'', events.match_id = Some ''m1'', event_type = Some ''pass'',
        start_time = Some 200, end_time = Some 100, start_frame = Some 10, end_frame = Some 5,
        team_id = None, players_involved = None, metadata_json = None\<rparr>"
  by (simp add: insert_events_def span_ordered_def)

lemma insert_events_inv:
  "events_inv offered rows \<Longrightarrow> r \<in> set offered \<Longrightarrow> insert_events r rows = Inr rows'
     \<Longrightarrow> events_inv offered rows'"
  by (auto simp: events_inv_def insert_events_def split: if_splits)

lemma load_events_inv:
  "events_inv offered rows \<Longrightarrow> set rs \<subseteq> set offered
     \<Longrightarrow> events_inv offered (load_events rows rs)"
proof (induction rs arbitrary: rows)
  case Nil
  then show ?case by simp
next
  case (Cons r rs)
  show ?case
  proof (cases "insert_events r rows")
    case (Inl e)
    with Cons show ?thesis by simp
  next
    case (Inr rows')
    moreover from Cons.prems have "r \<in> set offered" and rs: "set rs \<subseteq> set offered"
      by simp_all
    ultimately have "events_inv offered rows'"
      using Cons.prems(1) insert_events_inv by blast
    with Cons.IH rs Inr show ?thesis by simp
  qed
qed

text \<open>
  C4, amended: in every reachable events table the event ids are distinct, every stored
  row is a row that was offered, with its seven NOT NULL columns present; the orderings of
  the span hold for the stored rows when they hold for the offered rows, the store itself
  checking neither them nor a frame range.
\<close>

theorem events_store_guarantees:
  "distinct (map event_id (load_events [] rs))
   \<and> (\<forall>r \<in> set (load_events [] rs).
         r \<in> set rs \<and> event_id r \<noteq> None \<and> events.match_id r \<noteq> None \<and> event_type r \<noteq> None
         \<and> start_time r \<noteq> None \<and> end_time r \<noteq> None \<and> start_frame r \<noteq> None
         \<and> end_frame r \<noteq> None)
   \<and> ((\<forall>r \<in> set rs. span_ordered r) \<longrightarrow> (\<forall>r \<in> set (load_events [] rs). span_ordered r))"
proof -
  have "events_inv rs []" by (simp add: events_inv_def)
  then have "events_inv rs (load_events [] rs)" by (rule load_events_inv) simp
  then show ?thesis by (auto simp: events_inv_def)
qed

theorem events_store_guarantees_witness:
  "span_ordered
     \<lparr>event_id = Some ''e1'', events.match_id = Some ''m1'', event_type = Some ''pass'',
      start_time = Some 100, end_time = Some 200, start_frame = Some 5, end_frame = Some 10,
      team_id = None, players_involved = None, metadata_json = None\<rparr>
   \<and> span_ordered
     \<lparr>event_id = Some ''e1'', events.match_id = Some ''m1'', event_type = Some ''shot'',
      start_time = Some 300, end_time = Some 300, start_frame = Some 15, end_frame = Some 15,
      team_id = None, players_involved = None, metadata_json = None\<rparr>
   \<and> load_events []
     [\<lparr>event_id = Some ''e1'', events.match_id = Some ''m1'', event_type = Some ''pass'',
       start_time = Some 100, end_time = Some 200, start_frame = Some 5, end_frame = Some 10,
       team_id = None, players_involved = None, metadata_json = None\<rparr>,
      \<lparr>event_id = Some ''e1'', events.match_id = Some ''m1'', event_type = Some ''shot'',
       start_time = Some 300, end_time = Some 300, start_frame = Some 15, end_frame = Some 15,
       team_id = None, players_involved = None, metadata_json = None\<rparr>]
     = [\<lparr>event_id = Some ''e1'', events.match_id = Some ''m1'', event_type = Some ''pass'',
         start_time = Some 100, end_time = Some 200, start_frame = Some 5,
         end_frame = Some 10, team_id = None, players_involved = None,
         metadata_json = None\<rparr>]
   \<and> list_all span_ordered (load_events []
     [\<lparr>event_id = Some ''e1'', events.match_id = Some ''m1'', event_type = Some ''pass'',
       start_time = Some 100, end_time = Some 200, start_frame = Some 5, end_frame = Some 10,
       team_id = None, players_involved = None, metadata_json = None\<rparr>,
      \<lparr>event_id = Some ''e1'', events.match_id = Some ''m1'', event_type = Some ''shot'',
       start_time = Some 300, end_time = Some 300, start_frame = Some 15, end_frame = Some 15,
       team_id = None, players_involved = None, metadata_json = None\<rparr>])"
proof -
  let ?a = "\<lparr>event_id = Some ''e1'', events.match_id = Some ''m1'', event_type = Some ''pass'',
       start_time = Some 100, end_time = Some 200, start_frame = Some (5 :: 32 word),
       end_frame = Some (10 :: 32 word), team_id = None, players_involved = None,
       metadata_json = None\<rparr>"
  let ?b = "\<lparr>event_id = Some ''e1'', events.match_id = Some ''m1'', event_type = Some ''shot'',
       start_time = Some 300, end_time = Some 300, start_frame = Some (15 :: 32 word),
       end_frame = Some (15 :: 32 word), team_id = None, players_involved = None,
       metadata_json = None\<rparr>"
  have l: "load_events [] [?a, ?b] = [?a]"
    by (simp add: insert_events_def)
  have a: "span_ordered ?a" and b: "span_ordered ?b"
    by (simp_all add: span_ordered_def)
  then have o: "\<forall>r \<in> set [?a, ?b]. span_ordered r" by simp
  from events_store_guarantees [of "[?a, ?b]"] o
  have "\<forall>r \<in> set (load_events [] [?a, ?b]). span_ordered r"
    by blast
  then have "list_all span_ordered (load_events [] [?a, ?b])"
    by (simp add: list_all_iff)
  with l a b show ?thesis by blast
qed

end
